theory Spec2Isabelle
  imports Main
begin

section \<open>JavaScript strings and arrays\<close>

text \<open>
  A JavaScript string is modelled as a \<open>string\<close> (a list of characters) and an array
  as a list. Reading an array past its end yields \<open>undefined\<close>, which is \<open>None\<close> here.
\<close>

text \<open>\<open>str.split(c)\<close> for a one-character separator: the result is never empty,
  \<open>''''.split('/')\<close> is \<open>['''']\<close>.\<close>

fun js_split :: "char \<Rightarrow> string \<Rightarrow> string list" where
  "js_split c [] = [[]]"
| "js_split c (x # xs) =
     (if x = c then [] # js_split c xs
      else (case js_split c xs of [] \<Rightarrow> [[x]] | s # ss \<Rightarrow> (x # s) # ss))"

text \<open>How \<open>Array.prototype.slice\<close> reads an index: a negative one counts from the
  end, and both ends are clamped to the array.\<close>

definition clamp_index :: "int \<Rightarrow> nat \<Rightarrow> nat" where
  "clamp_index k len = (if k < 0 then nat (max (int len + k) 0) else min (nat k) len)"

definition js_slice :: "'a list \<Rightarrow> int \<Rightarrow> int \<Rightarrow> 'a list" where
  "js_slice xs start stop =
     (let s = clamp_index start (length xs); e = clamp_index stop (length xs)
      in take (e - s) (drop s xs))"

text \<open>\<open>xs.slice(start)\<close>: the end defaults to the length.\<close>

definition js_slice_from :: "'a list \<Rightarrow> int \<Rightarrow> 'a list" where
  "js_slice_from xs start = js_slice xs start (int (length xs))"

text \<open>\<open>xs[i]\<close>: \<open>undefined\<close> out of range.\<close>

definition js_nth :: "'a list \<Rightarrow> int \<Rightarrow> 'a option" where
  "js_nth xs i = (if 0 \<le> i \<and> i < int (length xs) then Some (xs ! nat i) else None)"

text \<open>Truthiness of a value that is a string or \<open>undefined\<close>: only a non-empty
  string is truthy.\<close>

fun truthy :: "string option \<Rightarrow> bool" where
  "truthy None = False"
| "truthy (Some s) = (s \<noteq> [])"

section \<open>The URL codec\<close>

record query =
  id :: string
  sublevels :: "string list"

text \<open>
  \<open>parseURL\<close> of \<open>src/index.js\<close>. In the branch that returns an object the array has
  at least two elements, so \<open>segs[segs.length - 1]\<close> is defined there (lemma
  \<open>parseURL_cases\<close> below); the \<open>None\<close> of the inner case is never reached.
\<close>

definition parseURL :: "string \<Rightarrow> query option" where
  "parseURL url =
     (let segs = js_slice_from (js_split CHR ''/'' url) 1 in
      if js_nth segs 0 \<noteq> Some ''files'' \<or> \<not> truthy (js_nth segs 1) then None
      else (case js_nth segs (int (length segs) - 1) of
              None \<Rightarrow> None
            | Some i \<Rightarrow> Some \<lparr>id = i, sublevels = js_slice segs 1 (int (length segs) - 1)\<rparr>))"

text \<open>\<open>parseURL\<close> of \<open>src/unnamed/part_000\<close>: the same test one index further,
  on the array that was not sliced.\<close>

definition parseURL2 :: "string \<Rightarrow> query option" where
  "parseURL2 url =
     (let segs = js_split CHR ''/'' url in
      if js_nth segs 1 \<noteq> Some ''files'' \<or> \<not> truthy (js_nth segs 2) then None
      else (case js_nth segs (int (length segs) - 1) of
              None \<Rightarrow> None
            | Some i \<Rightarrow> Some \<lparr>id = i, sublevels = js_slice segs 2 (int (length segs) - 1)\<rparr>))"

section \<open>Store handles\<close>

text \<open>
  A handle of the key-value store, as \<open>url\<close> and \<open>resolveSubLevel\<close> see it: the root,
  whose \<open>_parent\<close> is missing or is the root itself, or the partition that
  \<open>db.sublevel(name)\<close> returns, whose \<open>_parent\<close> is \<open>db\<close> and whose \<open>_prefix\<close> is
  \<open>name\<close>.
\<close>

datatype handle = Root | Sub (parent: handle) (prefix: string)

definition sublevel :: "handle \<Rightarrow> string \<Rightarrow> handle" where
  "sublevel db name = Sub db name"

text \<open>The loop of \<open>resolveSubLevel\<close>, from index 0 upwards.\<close>

fun resolveSubLevel :: "handle \<Rightarrow> string list \<Rightarrow> handle" where
  "resolveSubLevel db [] = db"
| "resolveSubLevel db (n # ns) = resolveSubLevel (sublevel db n) ns"

text \<open>The \<open>while\<close> loop of \<open>Server.prototype.url\<close>, with the string \<open>sublevels\<close> as
  accumulator: it stops at the root.\<close>

fun url_loop :: "handle \<Rightarrow> string \<Rightarrow> string" where
  "url_loop Root acc = acc"
| "url_loop (Sub p n) acc = url_loop p (n @ ''/'' @ acc)"

definition url :: "handle \<Rightarrow> string \<Rightarrow> string" where
  "url db i = ''/files/'' @ url_loop db [] @ i"

text \<open>The path the specification calls canonical for a namespace chain and an id:
  \<open>/files/n1/.../nk/id\<close>.\<close>

definition canonical_path :: "string list \<Rightarrow> string \<Rightarrow> string" where
  "canonical_path ns i = ''/files'' @ concat (map (\<lambda>s. CHR ''/'' # s) (ns @ [i]))"

text \<open>The validity test in the specification's words: the first segment after the
  leading slash is \<open>files\<close> and at least one further segment exists.\<close>

definition spec_valid :: "string \<Rightarrow> bool" where
  "spec_valid u =
     (case tl (js_split CHR ''/'' u) of [] \<Rightarrow> False | p # rest \<Rightarrow> p = ''files'' \<and> rest \<noteq> [])"

section \<open>The server object\<close>

text \<open>
  A \<open>Server\<close> object holds \<open>db\<close>. (In \<open>src/index.js\<close> it also holds \<open>serve\<close>, the
  handler bound to the object; here the handler takes the object as an argument.)
  \<open>Server_new db\<close> is \<open>new Server(db)\<close>: \<open>this\<close> is the fresh instance, the guard of
  the constructor is false and the assignment runs. \<open>Server inst db\<close> is a call of the
  constructor, where \<open>inst\<close> says whether \<open>this\<close> is an instance of \<open>Server\<close>. If it
  is not, as in a call without \<open>new\<close> (\<open>this\<close> is then the global object or
  \<open>undefined\<close>), the call returns \<open>new Server(db)\<close>; if it is, the assignment runs on
  \<open>this\<close>, and the result is that object.
\<close>

record 'db server =
  db :: 'db

definition Server_new :: "'db \<Rightarrow> 'db server" where
  "Server_new d = \<lparr>db = d\<rparr>"


section \<open>Errors, responses and the environment\<close>

text \<open>An error object with its \<open>name\<close> and \<open>message\<close>, and \<open>Error.prototype.toString\<close>.\<close>

datatype js_error = JsError (err_name: string) (err_message: string)

definition new_Error :: "string \<Rightarrow> js_error" where
  "new_Error msg = JsError ''Error'' msg"

fun toString :: "js_error \<Rightarrow> string" where
  "toString (JsError n m) = (if n = [] then m else if m = [] then n else n @ '': '' @ m)"

text \<open>
  The response object of Node's HTTP server, as far as the handler uses it: the status
  code (200 until set), the headers, the chunks written to the body and whether the
  response was ended. \<open>pipe\<close> is \<open>stream.pipe(res)\<close> for a stream that delivers the
  given chunks: it writes them and ends the response.
\<close>

record response =
  statusCode :: nat
  headers :: "string \<rightharpoonup> string"
  body :: "string list"
  finished :: bool

definition fresh_response :: response where
  "fresh_response = \<lparr>statusCode = 200, headers = Map.empty, body = [], finished = False\<rparr>"

definition writeHead :: "nat \<Rightarrow> (string \<times> string) list \<Rightarrow> response \<Rightarrow> response" where
  "writeHead code hs r = r\<lparr>statusCode := code, headers := headers r ++ map_of hs\<rparr>"

definition setHeader :: "string \<Rightarrow> string \<Rightarrow> response \<Rightarrow> response" where
  "setHeader n v r = r\<lparr>headers := (headers r)(n \<mapsto> v)\<rparr>"

definition res_end :: "string option \<Rightarrow> response \<Rightarrow> response" where
  "res_end d r =
     r\<lparr>body := (case d of None \<Rightarrow> body r | Some s \<Rightarrow> body r @ [s]), finished := True\<rparr>"

definition pipe :: "string list \<Rightarrow> response \<Rightarrow> response" where
  "pipe chunks r = r\<lparr>body := body r @ chunks, finished := True\<rparr>"

text \<open>What a handler changes: the response, and the errors logged with
  \<open>console.error\<close>.\<close>

record world =
  res :: response
  console :: "js_error list"

definition fresh_world :: world where
  "fresh_world = \<lparr>res = fresh_response, console = []\<rparr>"

type_synonym handler = "js_error \<Rightarrow> world \<Rightarrow> world"

record request =
  req_url :: string
  req_headers :: "(string \<rightharpoonup> string) option"

text \<open>
  What the handler takes from outside the repository: the variable \<open>NODE_ENV\<close> of
  the process, the function that the module \<open>simple-mime\<close> returns, and the result of
  JavaScript's \<open>==\<close> between a header string and a number (the language converts the
  string to a number first; the conversion is not modelled, it is a parameter).
\<close>

record env =
  NODE_ENV :: "string option"
  mime :: "string \<Rightarrow> string"
  loose_eq :: "string \<Rightarrow> nat \<Rightarrow> bool"

text \<open>How a header value that is a non-negative integer is written: its decimal
  digits.\<close>

fun decimal :: "nat \<Rightarrow> string" where
  "decimal n =
     (if n < 10 then [''0123456789'' ! n] else decimal (n div 10) @ [''0123456789'' ! (n mod 10)])"

declare decimal.simps [simp del]

text \<open>
  The adapter \<open>Store(db)\<close> of the module \<open>level-store\<close>, per handle and key: the
  outcome of \<open>exists\<close> (an error, or whether the key is there), the events of the read
  stream opened with \<open>limit: 1, index: true\<close>, and the chunks of the full read stream.
  A \<open>data\<close> event carries the object's \<open>index\<close>, the version marker, a non-negative
  integer; \<open>Number(obj.index)\<close> is that integer.
\<close>

datatype rs_event = Data nat | End | StreamError js_error

record level_store =
  st_exists :: "handle \<Rightarrow> string \<Rightarrow> js_error + bool"
  st_stat :: "handle \<Rightarrow> string \<Rightarrow> rs_event list"
  st_read :: "handle \<Rightarrow> string \<Rightarrow> string list"

section \<open>The handlers\<close>

text \<open>\<open>createError\<close>, the same in both files.\<close>

definition createError :: "env \<Rightarrow> handler" where
  "createError e err w =
     (let w1 = w\<lparr>res := writeHead 500 [] (res w)\<rparr> in
      if NODE_ENV e \<noteq> Some ''production''
      then w1\<lparr>console := console w1 @ [err], res := res_end (Some (toString err)) (res w1)\<rparr>
      else w1\<lparr>res := res_end (Some ''oops.'') (res w1)\<rparr>)"

text \<open>\<open>createNotFound\<close> of \<open>src/index.js\<close>.\<close>

definition createNotFound :: "world \<Rightarrow> world" where
  "createNotFound w =
     w\<lparr>res := res_end (Some ''File not found.'') (writeHead 404 [] (res w))\<rparr>"

text \<open>\<open>createNotFound\<close> of \<open>src/unnamed/part_000\<close>, which takes the error callback
  (\<open>None\<close> when the argument is \<open>undefined\<close>).\<close>

definition createNotFound2 :: "handler option \<Rightarrow> world \<Rightarrow> world" where
  "createNotFound2 error w =
     (case error of
        Some f \<Rightarrow> f (new_Error ''File not found.'') w
      | None \<Rightarrow> w\<lparr>res := res_end (Some ''File not found.'') (writeHead 404 [] (res w))\<rparr>)"

text \<open>\<open>serve\<close> of \<open>src/index.js\<close>: the existence-only policy.\<close>

definition serve ::
  "env \<Rightarrow> level_store \<Rightarrow> handle server \<Rightarrow> request \<Rightarrow> handler option \<Rightarrow> world \<Rightarrow> world" where
  "serve e st this req error w =
     (let error = (case error of None \<Rightarrow> createError e | Some f \<Rightarrow> f);
          notFound = createNotFound
      in if req_url req = ''/favicon.ico'' then w\<lparr>res := res_end None (res w)\<rparr>
         else (case parseURL (req_url req) of
                 None \<Rightarrow> notFound w
               | Some query \<Rightarrow>
                   (let store = resolveSubLevel (db this) (sublevels query) in
                    case st_exists st store (id query) of
                      Inl err \<Rightarrow> error err w
                    | Inr ex \<Rightarrow>
                        if \<not> ex then notFound w
                        else w\<lparr>res := pipe (st_read st store (id query))
                               (writeHead 200 [(''Content-Type'', mime e (id query))] (res w))\<rparr>)))"

text \<open>The request's \<open>If-None-Match\<close> header, \<open>undefined\<close> when the request has no
  headers object or no such header.\<close>

definition if_none_match :: "request \<Rightarrow> string option" where
  "if_none_match req = (case req_headers req of None \<Rightarrow> None | Some hs \<Rightarrow> hs ''if-none-match'')"

text \<open>The inner function \<open>send\<close> of \<open>serve\<close> in \<open>src/unnamed/part_000\<close>.\<close>

definition send :: "env \<Rightarrow> level_store \<Rightarrow> handle \<Rightarrow> request \<Rightarrow> query \<Rightarrow> nat \<Rightarrow> world \<Rightarrow> world" where
  "send e st store req query mtime w =
     (let r = setHeader ''ETag'' (decimal mtime)
                (setHeader ''Content-Type'' (mime e (id query)) (res w))
      in if (case if_none_match req of None \<Rightarrow> False | Some etag \<Rightarrow> loose_eq e etag mtime)
         then w\<lparr>res := res_end None (r\<lparr>statusCode := 304\<rparr>)\<rparr>
         else w\<lparr>res := pipe (st_read st store (id query)) r\<rparr>)"

text \<open>
  The three listeners on the read stream, run on one event. The state is the variable
  \<open>found\<close> and the world. The \<open>data\<close> listener is registered with \<open>once\<close>: it runs
  on the first \<open>data\<close> event only, and \<open>found\<close> is true exactly after it ran.
\<close>

fun on_event ::
  "(nat \<Rightarrow> world \<Rightarrow> world) \<Rightarrow> (world \<Rightarrow> world) \<Rightarrow> handler \<Rightarrow> bool \<times> world \<Rightarrow> rs_event \<Rightarrow> bool \<times> world"
where
  "on_event send_fn notFound error (found, w) (Data index) =
     (if found then (found, w) else (True, send_fn index w))"
| "on_event send_fn notFound error (found, w) End =
     (if \<not> found then (found, notFound w) else (found, w))"
| "on_event send_fn notFound error (found, w) (StreamError err) = (found, error err w)"

text \<open>\<open>serve\<close> of \<open>src/unnamed/part_000\<close>: the conditional-cache policy.\<close>

definition serve2 ::
  "env \<Rightarrow> level_store \<Rightarrow> handle server \<Rightarrow> request \<Rightarrow> handler option \<Rightarrow> world \<Rightarrow> world" where
  "serve2 e st this req error w =
     (let error = (case error of None \<Rightarrow> createError e | Some f \<Rightarrow> f);
          notFound = createNotFound2 (Some error)
      in if req_url req = ''/favicon.ico'' then w\<lparr>res := res_end None (res w)\<rparr>
         else (case parseURL2 (req_url req) of
                 None \<Rightarrow> notFound w
               | Some query \<Rightarrow>
                   (let store = resolveSubLevel (db this) (sublevels query) in
                    snd (foldl (on_event (send e st store req query) notFound error) (False, w)
                           (st_stat st store (id query))))))"

section \<open>The write entry point\<close>

text \<open>
  \<open>Server.prototype.store\<close> of \<open>src/unnamed/part_000\<close>. The write stream answers
  with \<open>error\<close> and \<open>close\<close> events; the state is the variable \<open>called\<close> and the
  calls of \<open>fn\<close> made so far, each with its argument (\<open>None\<close>: called with no
  argument). \<open>fn_given\<close> says whether the caller passed \<open>fn\<close>.
\<close>

datatype ws_event = WsError js_error | WsClose

record store_state =
  called :: bool
  fn_calls :: "js_error option list"

fun on_ws_event :: "bool \<Rightarrow> store_state \<Rightarrow> ws_event \<Rightarrow> store_state" where
  "on_ws_event fn_given s (WsError err) =
     (if \<not> fn_given \<or> called s then s
      else s\<lparr>called := True, fn_calls := fn_calls s @ [Some err]\<rparr>)"
| "on_ws_event fn_given s WsClose =
     (if \<not> fn_given \<or> called s then s
      else s\<lparr>called := True, fn_calls := fn_calls s @ [None]\<rparr>)"

definition store :: "bool \<Rightarrow> ws_event list \<Rightarrow> store_state" where
  "store fn_given events = foldl (on_ws_event fn_given) \<lparr>called = False, fn_calls = []\<rparr> events"

section \<open>Facts about splitting, slicing and the codec\<close>

lemma js_split_not_Nil: "js_split c s \<noteq> []"
  by (induction s) (auto split: list.splits)

lemma js_split_no_sep: "c \<notin> set s \<Longrightarrow> js_split c s = [s]"
  by (induction s) auto

lemma js_split_append: "c \<notin> set s \<Longrightarrow> js_split c (s @ c # t) = s # js_split c t"
  by (induction s) auto

lemma js_slice_from_1: "js_slice_from xs 1 = tl xs"
  by (cases xs) (auto simp: js_slice_from_def js_slice_def clamp_index_def Let_def)

lemma js_slice_last:
  "k \<le> length xs \<Longrightarrow> js_slice xs (int k) (int (length xs) - 1) = butlast (drop k xs)"
  by (cases "xs = []")
     (auto simp: js_slice_def clamp_index_def Let_def butlast_conv_take drop_take
        nat_diff_distrib' min_def)

lemma js_nth_Nil: "js_nth [] i = None"
  by (simp add: js_nth_def)

lemma js_nth_0: "js_nth (x # xs) 0 = Some x"
  by (simp add: js_nth_def)

lemma js_nth_1: "js_nth (x # xs) 1 = js_nth xs 0"
  by (simp add: js_nth_def)

lemma js_nth_2: "js_nth (x # xs) 2 = js_nth xs 1"
  by (auto simp: js_nth_def nat_diff_distrib')

lemmas js_nth_simps = js_nth_Nil js_nth_0 js_nth_1 js_nth_2

lemma js_nth_last: "xs \<noteq> [] \<Longrightarrow> js_nth xs (int (length xs) - 1) = Some (last xs)"
  by (auto simp: js_nth_def last_conv_nth nat_diff_distrib')

lemma query_of_segs:
  assumes "k < length segs"
  shows "(case js_nth segs (int (length segs) - 1) of
            None \<Rightarrow> None
          | Some i \<Rightarrow> Some \<lparr>id = i, sublevels = js_slice segs (int k) (int (length segs) - 1)\<rparr>)
         = Some \<lparr>id = last (drop k segs), sublevels = butlast (drop k segs)\<rparr>"
proof -
  from assms have ne: "segs \<noteq> []" and le: "k \<le> length segs"
    by auto
  have "last (drop k segs) = last segs"
    using assms by simp
  then show ?thesis
    by (simp only: js_nth_last [OF ne] js_slice_last [OF le] option.case)
qed

lemma parseURL_cases:
  "parseURL u =
     (case tl (js_split CHR ''/'' u) of
        p # s # rest \<Rightarrow>
          if p = ''files'' \<and> s \<noteq> []
          then Some \<lparr>id = last (s # rest), sublevels = butlast (s # rest)\<rparr> else None
      | _ \<Rightarrow> None)"
proof -
  define segs where "segs = tl (js_split CHR ''/'' u)"
  have p: "parseURL u =
     (if js_nth segs 0 \<noteq> Some ''files'' \<or> \<not> truthy (js_nth segs 1) then None
      else (case js_nth segs (int (length segs) - 1) of
              None \<Rightarrow> None
            | Some i \<Rightarrow> Some \<lparr>id = i, sublevels = js_slice segs (int 1) (int (length segs) - 1)\<rparr>))"
    unfolding parseURL_def js_slice_from_1 Let_def segs_def of_nat_1 ..
  show ?thesis
  proof (cases "js_nth segs 0 \<noteq> Some ''files'' \<or> \<not> truthy (js_nth segs 1)")
    case True
    then have "parseURL u = None"
      using p by simp
    moreover from True have "(case segs of
        p # s # rest \<Rightarrow>
          if p = ''files'' \<and> s \<noteq> []
          then Some \<lparr>id = last (s # rest), sublevels = butlast (s # rest)\<rparr> else None
      | _ \<Rightarrow> None) = None"
      by (auto simp: js_nth_simps split: list.splits)
    ultimately show ?thesis
      by (simp only: segs_def)
  next
    case False
    then obtain s rest where segs: "segs = ''files'' # s # rest" and s: "s \<noteq> []"
      by (cases segs; cases "tl segs") (auto simp: js_nth_simps)
    have "1 < length segs"
      using segs by simp
    from query_of_segs [OF this] False p
    have "parseURL u = Some \<lparr>id = last (drop 1 segs), sublevels = butlast (drop 1 segs)\<rparr>"
      by (simp only: if_False)
    then show ?thesis
      unfolding segs_def [symmetric] using segs s by simp
  qed
qed

lemma parseURL2_cases:
  "parseURL2 u =
     (case tl (js_split CHR ''/'' u) of
        p # s # rest \<Rightarrow>
          if p = ''files'' \<and> s \<noteq> []
          then Some \<lparr>id = last (s # rest), sublevels = butlast (s # rest)\<rparr> else None
      | _ \<Rightarrow> None)"
proof -
  define segs where "segs = js_split CHR ''/'' u"
  have p: "parseURL2 u =
     (if js_nth segs 1 \<noteq> Some ''files'' \<or> \<not> truthy (js_nth segs 2) then None
      else (case js_nth segs (int (length segs) - 1) of
              None \<Rightarrow> None
            | Some i \<Rightarrow> Some \<lparr>id = i, sublevels = js_slice segs (int 2) (int (length segs) - 1)\<rparr>))"
    unfolding parseURL2_def Let_def segs_def of_nat_numeral ..
  show ?thesis
  proof (cases "js_nth segs 1 \<noteq> Some ''files'' \<or> \<not> truthy (js_nth segs 2)")
    case True
    then have "parseURL2 u = None"
      using p by simp
    moreover from True have "(case tl segs of
        p # s # rest \<Rightarrow>
          if p = ''files'' \<and> s \<noteq> []
          then Some \<lparr>id = last (s # rest), sublevels = butlast (s # rest)\<rparr> else None
      | _ \<Rightarrow> None) = None"
      by (cases segs) (auto simp: js_nth_simps split: list.splits)
    ultimately show ?thesis
      by (simp only: segs_def)
  next
    case False
    then obtain a s rest where segs: "segs = a # ''files'' # s # rest" and s: "s \<noteq> []"
      by (cases segs; cases "tl segs"; cases "tl (tl segs)") (auto simp: js_nth_simps)
    have "2 < length segs"
      using segs by simp
    from query_of_segs [OF this] False p
    have "parseURL2 u = Some \<lparr>id = last (drop 2 segs), sublevels = butlast (drop 2 segs)\<rparr>"
      by (simp only: if_False)
    then show ?thesis
      unfolding segs_def [symmetric] using segs s by simp
  qed
qed

lemma parseURL2_eq: "parseURL2 u = parseURL u"
  by (simp only: parseURL_cases parseURL2_cases)


lemma url_loop_resolve:
  "url_loop (resolveSubLevel h ns) acc = url_loop h (concat (map (\<lambda>n. n @ ''/'') ns) @ acc)"
  by (induction ns arbitrary: h acc) (simp_all add: sublevel_def)

lemma slashes_shift:
  "CHR ''/'' # concat (map (\<lambda>n. n @ ''/'') ns) @ i = concat (map ((#) CHR ''/'') (ns @ [i]))"
  by (induction ns) simp_all

lemma url_canonical: "url (resolveSubLevel Root ns) i = canonical_path ns i"
  using slashes_shift [of ns i] by (simp add: url_def canonical_path_def url_loop_resolve)

lemma js_split_concat:
  "\<forall>s\<in>set segs. c \<notin> set s \<Longrightarrow> c \<notin> set p \<Longrightarrow>
     js_split c (p @ concat (map ((#) c) segs)) = p # segs"
proof (induction segs arbitrary: p)
  case Nil
  then show ?case by (simp add: js_split_no_sep)
next
  case (Cons s segs)
  from Cons.prems have "js_split c (s @ concat (map ((#) c) segs)) = s # segs"
    by (intro Cons.IH) auto
  with Cons.prems(2) show ?case
    by (simp add: js_split_append)
qed

lemma js_split_canonical:
  assumes "\<forall>s\<in>set (ns @ [i]). CHR ''/'' \<notin> set s"
  shows "js_split CHR ''/'' (canonical_path ns i) = [] # ''files'' # ns @ [i]"
proof -
  have "canonical_path ns i = [] @ concat (map ((#) CHR ''/'') (''files'' # ns @ [i]))"
    by (simp add: canonical_path_def)
  moreover have "\<forall>s\<in>set (''files'' # ns @ [i]). CHR ''/'' \<notin> set s"
    using assms by simp
  ultimately show ?thesis
    using js_split_concat [of "''files'' # ns @ [i]" "CHR ''/''" "[]"] by simp
qed

lemma parseURL_canonical_path:
  assumes "\<forall>s\<in>set (ns @ [i]). CHR ''/'' \<notin> set s"
  shows "parseURL (canonical_path ns i) =
           (if hd (ns @ [i]) = [] then None else Some \<lparr>id = i, sublevels = ns\<rparr>)"
proof -
  obtain s rest where sr: "ns @ [i] = s # rest"
    by (cases "ns @ [i]") auto
  then have "last (s # rest) = i" and "butlast (s # rest) = ns"
    by (metis last_snoc, metis butlast_snoc)
  moreover have "tl (js_split CHR ''/'' (canonical_path ns i)) = ''files'' # s # rest"
    using js_split_canonical [OF assms] sr by simp
  ultimately show ?thesis
    using sr by (simp add: parseURL_cases)
qed

lemma js_split_query:
  assumes "CHR ''/'' \<notin> set s" "CHR ''/'' \<notin> set q"
  shows "js_split CHR ''/'' (''/files/'' @ s @ ''?'' @ q) = [[], ''files'', s @ ''?'' @ q]"
proof -
  have "CHR ''/'' \<notin> set (s @ ''?'' @ q)"
    using assms by simp
  then have "js_split CHR ''/'' (s @ ''?'' @ q) = [s @ ''?'' @ q]"
    by (rule js_split_no_sep)
  then show ?thesis
    by simp
qed

section \<open>Facts about the handlers\<close>

lemma on_ws_event_called: "called s \<Longrightarrow> on_ws_event fn_given s ev = s"
  by (cases ev) simp_all

lemma foldl_on_ws_event_called: "called s \<Longrightarrow> foldl (on_ws_event fn_given) s evs = s"
  by (induction evs) (simp_all add: on_ws_event_called)

lemma res_createError:
  "res (createError e err fresh_world) =
     \<lparr>statusCode = 500, headers = Map.empty,
      body = [if NODE_ENV e = Some ''production'' then ''oops.'' else toString err],
      finished = True\<rparr>"
  by (simp add: createError_def fresh_world_def fresh_response_def writeHead_def res_end_def Let_def)

text \<open>The handler of \<open>src/index.js\<close> answers a path that does not decode with 404,
  whatever the error callback.\<close>

lemma serve_not_found_is_404:
  "res (serve e st this \<lparr>req_url = ''/nonsense'', req_headers = hs\<rparr> error fresh_world) =
     \<lparr>statusCode = 404, headers = Map.empty, body = [''File not found.''], finished = True\<rparr>"
  by (simp add: serve_def parseURL_cases createNotFound_def fresh_world_def fresh_response_def
      writeHead_def res_end_def)

section \<open>The claims\<close>

text \<open>
  Claim C1, as amended. For every namespace chain \<open>ns\<close> resolved from the root handle
  and every id, \<open>url\<close> yields the path \<open>/files/n1/.../nk/id\<close>. When no name and
  not the id contains a slash, and the first of \<open>n1, ..., nk, id\<close> is not empty, both
  versions of \<open>parseURL\<close> map that path back to the id and the chain.
\<close>

theorem url_then_parseURL:
  "url (resolveSubLevel Root ns) i = canonical_path ns i \<and>
   ((\<forall>s\<in>set (ns @ [i]). CHR ''/'' \<notin> set s) \<and> hd (ns @ [i]) \<noteq> [] \<longrightarrow>
      parseURL (url (resolveSubLevel Root ns) i) = Some \<lparr>id = i, sublevels = ns\<rparr> \<and>
      parseURL2 (url (resolveSubLevel Root ns) i) = Some \<lparr>id = i, sublevels = ns\<rparr>)"
  by (simp add: url_canonical parseURL2_eq parseURL_canonical_path)

text \<open>The chain \<open>a, b\<close> and the id \<open>42\<close>.\<close>

theorem url_then_parseURL_witness:
  "url (resolveSubLevel Root [''a'', ''b'']) ''42'' = ''/files/a/b/42'' \<and>
   parseURL (url (resolveSubLevel Root [''a'', ''b'']) ''42'') =
     Some \<lparr>id = ''42'', sublevels = [''a'', ''b'']\<rparr> \<and>
   parseURL2 (url (resolveSubLevel Root [''a'', ''b'']) ''42'') =
     Some \<lparr>id = ''42'', sublevels = [''a'', ''b'']\<rparr>"
proof -
  note t = url_then_parseURL [of "[''a'', ''b'']" "''42''"]
  have c: "canonical_path [''a'', ''b''] ''42'' = ''/files/a/b/42''"
    by (simp add: canonical_path_def)
  have u: "url (resolveSubLevel Root [''a'', ''b'']) ''42'' = ''/files/a/b/42''"
    using conjunct1 [OF t] c by (rule trans)
  have h: "(\<forall>s\<in>set ([''a'', ''b''] @ [''42'']). CHR ''/'' \<notin> set s) \<and>
           hd ([''a'', ''b''] @ [''42'']) \<noteq> []"
    by simp
  have p: "parseURL (url (resolveSubLevel Root [''a'', ''b'']) ''42'') =
             Some \<lparr>id = ''42'', sublevels = [''a'', ''b'']\<rparr> \<and>
           parseURL2 (url (resolveSubLevel Root [''a'', ''b'']) ''42'') =
             Some \<lparr>id = ''42'', sublevels = [''a'', ''b'']\<rparr>"
    by (rule mp [OF conjunct2 [OF t] h])
  show ?thesis
    by (rule conjI [OF u p])
qed

text \<open>
  The claim as stated, for every id, fails for an id with a slash: at the root the id
  \<open>a/b\<close> is encoded as \<open>/files/a/b\<close>, which decodes to the id \<open>b\<close> in the
  namespace \<open>a\<close>.
\<close>

theorem url_then_parseURL_counterexample:
  "url (resolveSubLevel Root []) ''a/b'' = ''/files/a/b'' \<and>
   parseURL (url (resolveSubLevel Root []) ''a/b'') = Some \<lparr>id = ''b'', sublevels = [''a'']\<rparr> \<and>
   parseURL (url (resolveSubLevel Root []) ''a/b'') \<noteq> Some \<lparr>id = ''a/b'', sublevels = []\<rparr>"
  by (simp add: url_def parseURL_cases)

text \<open>
  Claim C2, as amended. For a path \<open>/files/n1/.../nk/id\<close> (\<open>k\<close> may be 0) whose
  segments contain no slash and whose segment right after \<open>files\<close> (\<open>n1\<close>, or the id
  when there is no namespace) is not empty, \<open>parseURL\<close> (in both versions) returns
  exactly the last segment as the id and the segments between \<open>files\<close> and the id, in
  order, as the namespace chain, which is empty when there are none.
\<close>

theorem parseURL_valid_path:
  assumes "\<forall>s\<in>set (ns @ [i]). CHR ''/'' \<notin> set s"
    and "hd (ns @ [i]) \<noteq> []"
  shows "parseURL (canonical_path ns i) = Some \<lparr>id = i, sublevels = ns\<rparr> \<and>
         parseURL2 (canonical_path ns i) = Some \<lparr>id = i, sublevels = ns\<rparr>"
  using assms by (simp add: parseURL2_eq parseURL_canonical_path)

text \<open>A chain of two names, and the empty chain.\<close>

theorem parseURL_valid_path_witness:
  "parseURL ''/files/a/b/42'' = Some \<lparr>id = ''42'', sublevels = [''a'', ''b'']\<rparr> \<and>
   parseURL2 ''/files/a/b/42'' = Some \<lparr>id = ''42'', sublevels = [''a'', ''b'']\<rparr> \<and>
   parseURL ''/files/42'' = Some \<lparr>id = ''42'', sublevels = []\<rparr> \<and>
   parseURL2 ''/files/42'' = Some \<lparr>id = ''42'', sublevels = []\<rparr>"
  using parseURL_valid_path [of "[''a'', ''b'']" "''42''"] parseURL_valid_path [of "[]" "''42''"]
  by (simp add: canonical_path_def)

text \<open>
  The claim as stated, for every valid path, fails at \<open>/files//x\<close>, the path of the
  namespace chain with the one empty name and the id \<open>x\<close>: it is valid by the
  specification's test, yet both versions return no match instead of the id \<open>x\<close> in the
  namespace with the empty name, because the guard rejects an empty segment right after
  \<open>files\<close>.
\<close>

theorem parseURL_valid_path_counterexample:
  "canonical_path [''''] ''x'' = ''/files//x'' \<and>
   spec_valid ''/files//x'' \<and>
   parseURL ''/files//x'' = None \<and>
   parseURL2 ''/files//x'' = None \<and>
   parseURL ''/files//x'' \<noteq> Some \<lparr>id = ''x'', sublevels = ['''']\<rparr>"
  by (simp add: canonical_path_def spec_valid_def parseURL2_eq parseURL_cases)

text \<open>
  Claim C3, as amended. \<open>parseURL\<close> (in both versions) returns a query if and only if
  the string splits at its slashes into some first piece, then \<open>files\<close>, then a
  non-empty segment, then any further segments; on every other string it returns no
  match. It is a total function: there is no string on which it throws.
\<close>

theorem parseURL_accepts_iff:
  "(parseURL u \<noteq> None) =
     (\<exists>a s rest. js_split CHR ''/'' u = a # ''files'' # s # rest \<and> s \<noteq> []) \<and>
   (parseURL2 u \<noteq> None) = (parseURL u \<noteq> None)"
proof -
  have "(parseURL u \<noteq> None) =
     (\<exists>a s rest. js_split CHR ''/'' u = a # ''files'' # s # rest \<and> s \<noteq> [])"
    by (cases "js_split CHR ''/'' u") (auto simp: js_split_not_Nil parseURL_cases split: list.splits)
  then show ?thesis
    by (simp add: parseURL2_eq)
qed

text \<open>An accepted path, a wrong prefix and a missing id.\<close>

theorem parseURL_accepts_iff_witness:
  "parseURL ''/files/x'' \<noteq> None \<and> parseURL ''/nonsense'' = None \<and> parseURL ''/files/'' = None"
  using parseURL_accepts_iff [of "''/files/x''"] parseURL_accepts_iff [of "''/nonsense''"]
    parseURL_accepts_iff [of "''/files/''"]
  by simp

text \<open>
  The claim as stated fails at \<open>/files//x\<close>: the first segment is \<open>files\<close> and two
  further segments exist, yet the path is not accepted, because the segment right after
  \<open>files\<close> is empty.
\<close>

theorem parseURL_spec_valid_counterexample:
  "\<not> ((parseURL ''/files//x'' \<noteq> None) = spec_valid ''/files//x'')"
  by (simp add: parseURL_cases spec_valid_def)

text \<open>
  Claim C4 says that without a custom error callback a path that does not decode, or an
  object that is absent, ends in a 404 written directly. In \<open>src/unnamed/part_000\<close>
  the handler replaces a missing callback by the default error handler before it builds
  the 404 handler, so the 404 handler always delegates: the response is a 500 whose body
  is the text of the error \<open>File not found.\<close>, or \<open>oops.\<close> in production mode.
\<close>

theorem serve2_not_found_is_500:
  "res (serve2 e st this \<lparr>req_url = ''/nonsense'', req_headers = hs\<rparr> None fresh_world) =
     \<lparr>statusCode = 500, headers = Map.empty,
      body = [if NODE_ENV e = Some ''production'' then ''oops.'' else ''Error: File not found.''],
      finished = True\<rparr> \<and>
   res (serve2 e \<lparr>st_exists = (\<lambda>_ _. Inr False), st_stat = (\<lambda>_ _. [End]), st_read = (\<lambda>_ _. [])\<rparr>
          this \<lparr>req_url = ''/files/42'', req_headers = hs\<rparr> None fresh_world) =
     \<lparr>statusCode = 500, headers = Map.empty,
      body = [if NODE_ENV e = Some ''production'' then ''oops.'' else ''Error: File not found.''],
      finished = True\<rparr>"
  by (simp add: serve2_def parseURL2_eq parseURL_cases createNotFound2_def res_createError new_Error_def)

text \<open>
  Claim C5. In \<open>src/unnamed/part_000\<close>, for an object that exists with version marker
  \<open>m\<close>: a request whose \<open>If-None-Match\<close> header is the marker \<open>m\<close> gets status 304,
  an empty body and the headers \<open>Content-Type\<close> and \<open>ETag\<close>; a request without the
  header, or with the token of another marker \<open>t\<close>, gets status 200, the full payload
  and the same headers, \<open>ETag\<close> being \<open>m\<close>. The comparison of the language is assumed
  to tell the decimal token of \<open>t\<close> from the number \<open>m\<close> exactly when they differ.
\<close>

theorem serve2_conditional:
  assumes "req_url req \<noteq> ''/favicon.ico''"
    and "parseURL2 (req_url req) = Some q"
    and "st_stat st (resolveSubLevel (db this) (sublevels q)) (id q) = [Data m, End]"
    and "if_none_match req = None \<or> if_none_match req = Some (decimal t)"
    and "loose_eq e (decimal t) m = (t = m)"
  shows "res (serve2 e st this req error fresh_world) =
           (if if_none_match req \<noteq> None \<and> t = m
            then \<lparr>statusCode = 304,
                  headers = [''Content-Type'' \<mapsto> mime e (id q), ''ETag'' \<mapsto> decimal m],
                  body = [], finished = True\<rparr>
            else \<lparr>statusCode = 200,
                  headers = [''Content-Type'' \<mapsto> mime e (id q), ''ETag'' \<mapsto> decimal m],
                  body = st_read st (resolveSubLevel (db this) (sublevels q)) (id q),
                  finished = True\<rparr>)"
proof -
  define h where "h = resolveSubLevel (db this) (sublevels q)"
  have s: "serve2 e st this req error fresh_world = send e st h req q m fresh_world"
    using assms(1-3) by (simp add: serve2_def h_def)
  from assms(4,5) show ?thesis
    unfolding s h_def [symmetric]
    by (auto simp: send_def fresh_world_def fresh_response_def setHeader_def res_end_def pipe_def)
qed

text \<open>The object \<open>42\<close> with marker 7, requested with the token 7, with the stale
  token 6 and with no token.\<close>

theorem serve2_conditional_witness:
  "res (serve2 \<lparr>NODE_ENV = None, mime = (\<lambda>_. ''application/octet-stream''),
                 loose_eq = (\<lambda>s n. s = decimal n)\<rparr>
          \<lparr>st_exists = (\<lambda>_ _. Inr True), st_stat = (\<lambda>_ _. [Data 7, End]), st_read = (\<lambda>_ _. [''blob''])\<rparr>
          (Server_new Root) \<lparr>req_url = ''/files/42'', req_headers = Some [''if-none-match'' \<mapsto> ''7'']\<rparr>
          None fresh_world) =
     \<lparr>statusCode = 304,
      headers = [''Content-Type'' \<mapsto> ''application/octet-stream'', ''ETag'' \<mapsto> ''7''],
      body = [], finished = True\<rparr> \<and>
   res (serve2 \<lparr>NODE_ENV = None, mime = (\<lambda>_. ''application/octet-stream''),
                 loose_eq = (\<lambda>s n. s = decimal n)\<rparr>
          \<lparr>st_exists = (\<lambda>_ _. Inr True), st_stat = (\<lambda>_ _. [Data 7, End]), st_read = (\<lambda>_ _. [''blob''])\<rparr>
          (Server_new Root) \<lparr>req_url = ''/files/42'', req_headers = Some [''if-none-match'' \<mapsto> ''6'']\<rparr>
          None fresh_world) =
     \<lparr>statusCode = 200,
      headers = [''Content-Type'' \<mapsto> ''application/octet-stream'', ''ETag'' \<mapsto> ''7''],
      body = [''blob''], finished = True\<rparr> \<and>
   res (serve2 \<lparr>NODE_ENV = None, mime = (\<lambda>_. ''application/octet-stream''),
                 loose_eq = (\<lambda>s n. s = decimal n)\<rparr>
          \<lparr>st_exists = (\<lambda>_ _. Inr True), st_stat = (\<lambda>_ _. [Data 7, End]), st_read = (\<lambda>_ _. [''blob''])\<rparr>
          (Server_new Root) \<lparr>req_url = ''/files/42'', req_headers = None\<rparr>
          None fresh_world) =
     \<lparr>statusCode = 200,
      headers = [''Content-Type'' \<mapsto> ''application/octet-stream'', ''ETag'' \<mapsto> ''7''],
      body = [''blob''], finished = True\<rparr>"
proof -
  let ?e = "\<lparr>NODE_ENV = None, mime = (\<lambda>_. ''application/octet-stream''),
             loose_eq = (\<lambda>s n. s = decimal n)\<rparr>"
  let ?st = "\<lparr>st_exists = (\<lambda>_ _. Inr True), st_stat = (\<lambda>_ _. [Data 7, End]),
              st_read = (\<lambda>_ _. [''blob''])\<rparr>"
  let ?q = "\<lparr>id = ''42'', sublevels = []\<rparr>"
  have p: "parseURL2 ''/files/42'' = Some ?q"
    by (simp add: parseURL2_cases)
  have d: "decimal 7 = ''7''" "decimal 6 = ''6''"
    by (simp_all add: decimal.simps)
  have a: "res (serve2 ?e ?st (Server_new Root)
             \<lparr>req_url = ''/files/42'', req_headers = Some [''if-none-match'' \<mapsto> ''7'']\<rparr>
             None fresh_world) =
     \<lparr>statusCode = 304,
      headers = [''Content-Type'' \<mapsto> ''application/octet-stream'', ''ETag'' \<mapsto> ''7''],
      body = [], finished = True\<rparr>"
    using serve2_conditional [of
        "\<lparr>req_url = ''/files/42'', req_headers = Some [''if-none-match'' \<mapsto> ''7'']\<rparr>"
        ?q ?st "Server_new Root" 7 7 ?e None]
    by (simp add: p d if_none_match_def)
  have b: "res (serve2 ?e ?st (Server_new Root)
             \<lparr>req_url = ''/files/42'', req_headers = Some [''if-none-match'' \<mapsto> ''6'']\<rparr>
             None fresh_world) =
     \<lparr>statusCode = 200,
      headers = [''Content-Type'' \<mapsto> ''application/octet-stream'', ''ETag'' \<mapsto> ''7''],
      body = [''blob''], finished = True\<rparr>"
    using serve2_conditional [of
        "\<lparr>req_url = ''/files/42'', req_headers = Some [''if-none-match'' \<mapsto> ''6'']\<rparr>"
        ?q ?st "Server_new Root" 7 6 ?e None]
    by (simp add: p d if_none_match_def)
  have c: "res (serve2 ?e ?st (Server_new Root)
             \<lparr>req_url = ''/files/42'', req_headers = None\<rparr> None fresh_world) =
     \<lparr>statusCode = 200,
      headers = [''Content-Type'' \<mapsto> ''application/octet-stream'', ''ETag'' \<mapsto> ''7''],
      body = [''blob''], finished = True\<rparr>"
    using serve2_conditional [of "\<lparr>req_url = ''/files/42'', req_headers = None\<rparr>"
        ?q ?st "Server_new Root" 7 6 ?e None]
    by (simp add: p d if_none_match_def)
  from a b c show ?thesis
    by (intro conjI)
qed

text \<open>
  Claim C6. With a callback supplied, and at least one \<open>error\<close> or \<open>close\<close> event
  from the write stream, \<open>store\<close> calls \<open>fn\<close> exactly once, whatever events follow
  and in whichever order: with the error when the first event is \<open>error\<close>, with no
  argument when it is \<open>close\<close>.
\<close>

theorem store_calls_fn_once:
  assumes "events \<noteq> []"
  shows "fn_calls (store True events) =
           [case hd events of WsError err \<Rightarrow> Some err | WsClose \<Rightarrow> None] \<and>
         length (fn_calls (store True events)) = 1"
proof -
  from assms obtain ev evs where evs: "events = ev # evs"
    by (cases events) auto
  define s where "s = on_ws_event True \<lparr>called = False, fn_calls = []\<rparr> ev"
  have c: "called s"
    unfolding s_def by (cases ev) simp_all
  have f: "fn_calls s = [case ev of WsError err \<Rightarrow> Some err | WsClose \<Rightarrow> None]"
    unfolding s_def by (cases ev) simp_all
  have "store True events = s"
    using foldl_on_ws_event_called [OF c] by (simp add: store_def evs s_def)
  with f evs show ?thesis
    by simp
qed

text \<open>An error followed by close, close followed by an error, and close alone.\<close>

theorem store_calls_fn_once_witness:
  "fn_calls (store True [WsError (new_Error ''disk''), WsClose]) = [Some (new_Error ''disk'')] \<and>
   fn_calls (store True [WsClose, WsError (new_Error ''disk'')]) = [None] \<and>
   fn_calls (store True [WsClose]) = [None]"
  using store_calls_fn_once [of "[WsError (new_Error ''disk''), WsClose]"]
    store_calls_fn_once [of "[WsClose, WsError (new_Error ''disk'')]"]
    store_calls_fn_once [of "[WsClose]"]
  by simp

text \<open>
  Claim C7. When the probe fails with a store error and the caller gave no error
  callback, both handlers answer with status 500; the body is the text of the error
  unless \<open>NODE_ENV\<close> is \<open>production\<close>, and then it is \<open>oops.\<close> whatever the error.
\<close>

theorem probe_failure_500:
  assumes "req_url req \<noteq> ''/favicon.ico''"
    and "parseURL (req_url req) = Some q"
    and "st_exists st (resolveSubLevel (db this) (sublevels q)) (id q) = Inl err"
    and "st_stat st (resolveSubLevel (db this) (sublevels q)) (id q) = [StreamError err]"
  shows "res (serve e st this req None fresh_world) =
           \<lparr>statusCode = 500, headers = Map.empty,
            body = [if NODE_ENV e = Some ''production'' then ''oops.'' else toString err],
            finished = True\<rparr> \<and>
         res (serve2 e st this req None fresh_world) = res (serve e st this req None fresh_world)"
proof -
  have 1: "serve e st this req None fresh_world = createError e err fresh_world"
    using assms(1-3) by (simp add: serve_def)
  have 2: "serve2 e st this req None fresh_world = createError e err fresh_world"
    using assms(1,2,4) by (simp add: serve2_def parseURL2_eq)
  show ?thesis
    by (simp only: 1 2 res_createError)
qed

text \<open>A store error in production mode and outside it.\<close>

theorem probe_failure_500_witness:
  "res (serve \<lparr>NODE_ENV = Some ''production'', mime = (\<lambda>_. ''application/octet-stream''),
                loose_eq = (\<lambda>_ _. False)\<rparr>
          \<lparr>st_exists = (\<lambda>_ _. Inl (new_Error ''IO error: lock'')),
           st_stat = (\<lambda>_ _. [StreamError (new_Error ''IO error: lock'')]), st_read = (\<lambda>_ _. [])\<rparr>
          (Server_new Root) \<lparr>req_url = ''/files/42'', req_headers = None\<rparr> None fresh_world) =
     \<lparr>statusCode = 500, headers = Map.empty, body = [''oops.''], finished = True\<rparr> \<and>
   res (serve \<lparr>NODE_ENV = None, mime = (\<lambda>_. ''application/octet-stream''),
                loose_eq = (\<lambda>_ _. False)\<rparr>
          \<lparr>st_exists = (\<lambda>_ _. Inl (new_Error ''IO error: lock'')),
           st_stat = (\<lambda>_ _. [StreamError (new_Error ''IO error: lock'')]), st_read = (\<lambda>_ _. [])\<rparr>
          (Server_new Root) \<lparr>req_url = ''/files/42'', req_headers = None\<rparr> None fresh_world) =
     \<lparr>statusCode = 500, headers = Map.empty, body = [''Error: IO error: lock''], finished = True\<rparr>"
proof -
  let ?st = "\<lparr>st_exists = (\<lambda>_ _. Inl (new_Error ''IO error: lock'')),
           st_stat = (\<lambda>_ _. [StreamError (new_Error ''IO error: lock'')]), st_read = (\<lambda>_ _. [])\<rparr>"
  let ?req = "\<lparr>req_url = ''/files/42'', req_headers = None\<rparr>"
  let ?q = "\<lparr>id = ''42'', sublevels = []\<rparr>"
  have p: "parseURL ''/files/42'' = Some ?q"
    by (simp add: parseURL_cases)
  show ?thesis
    using probe_failure_500 [of ?req ?q ?st "Server_new Root" "new_Error ''IO error: lock''"
        "\<lparr>NODE_ENV = Some ''production'', mime = (\<lambda>_. ''application/octet-stream''),
                loose_eq = (\<lambda>_ _. False)\<rparr>"]
      probe_failure_500 [of ?req ?q ?st "Server_new Root" "new_Error ''IO error: lock''"
        "\<lparr>NODE_ENV = None, mime = (\<lambda>_. ''application/octet-stream''),
                loose_eq = (\<lambda>_ _. False)\<rparr>"]
    by (simp add: p new_Error_def)
qed

text \<open>
  Claim C8 says that no accepted path yields an empty id. The code accepts
  \<open>/files/a/\<close> and returns the empty string as id, in the namespace \<open>a\<close>: the guard
  tests the segment after \<open>files\<close>, not the last one.
\<close>

theorem parseURL_empty_id:
  "parseURL ''/files/a/'' = Some \<lparr>id = [], sublevels = [''a'']\<rparr> \<and>
   parseURL2 ''/files/a/'' = Some \<lparr>id = [], sublevels = [''a'']\<rparr>"
  by (simp add: parseURL2_eq parseURL_cases)

text \<open>Hence an accepted path with an empty id exists, in both versions.\<close>

theorem parseURL_empty_id_witness:
  "(\<exists>q. parseURL ''/files/a/'' = Some q \<and> id q = []) \<and>
   (\<exists>q. parseURL2 ''/files/a/'' = Some q \<and> id q = [])"
  using parseURL_empty_id by simp

text \<open>
  Claim C9. For \<open>s\<close> and \<open>q\<close> without a slash, both versions of \<open>parseURL\<close> accept
  \<open>/files/s?q\<close> and return \<open>s?q\<close> as the id, with no namespace; the handler of
  \<open>src/index.js\<close> then looks \<open>s?q\<close> up in the store and infers the content type
  from \<open>s?q\<close>.
\<close>

theorem parseURL_keeps_query_string:
  assumes "CHR ''/'' \<notin> set s" and "CHR ''/'' \<notin> set q"
  shows "parseURL (''/files/'' @ s @ ''?'' @ q) = Some \<lparr>id = s @ ''?'' @ q, sublevels = []\<rparr> \<and>
         parseURL2 (''/files/'' @ s @ ''?'' @ q) = Some \<lparr>id = s @ ''?'' @ q, sublevels = []\<rparr> \<and>
         (st_exists st (db this) (s @ ''?'' @ q) = Inr True \<longrightarrow>
          res (serve e st this \<lparr>req_url = ''/files/'' @ s @ ''?'' @ q, req_headers = hs\<rparr>
                 None fresh_world) =
            \<lparr>statusCode = 200, headers = [''Content-Type'' \<mapsto> mime e (s @ ''?'' @ q)],
             body = st_read st (db this) (s @ ''?'' @ q), finished = True\<rparr>)"
proof -
  have p: "parseURL (''/files/'' @ s @ ''?'' @ q) = Some \<lparr>id = s @ ''?'' @ q, sublevels = []\<rparr>"
    using js_split_query [OF assms] by (simp add: parseURL_cases)
  then have p2: "parseURL2 (''/files/'' @ s @ ''?'' @ q) = Some \<lparr>id = s @ ''?'' @ q, sublevels = []\<rparr>"
    by (simp add: parseURL2_eq)
  have "st_exists st (db this) (s @ ''?'' @ q) = Inr True \<longrightarrow>
          res (serve e st this \<lparr>req_url = ''/files/'' @ s @ ''?'' @ q, req_headers = hs\<rparr>
                 None fresh_world) =
            \<lparr>statusCode = 200, headers = [''Content-Type'' \<mapsto> mime e (s @ ''?'' @ q)],
             body = st_read st (db this) (s @ ''?'' @ q), finished = True\<rparr>"
    using p by (simp add: serve_def fresh_world_def fresh_response_def pipe_def writeHead_def)
  with p p2 show ?thesis
    by (intro conjI)
qed

text \<open>The path \<open>/files/a.png?v=1\<close>, with the object \<open>a.png?v=1\<close> in the store.\<close>

theorem parseURL_keeps_query_string_witness:
  "parseURL ''/files/a.png?v=1'' = Some \<lparr>id = ''a.png?v=1'', sublevels = []\<rparr> \<and>
   parseURL2 ''/files/a.png?v=1'' = Some \<lparr>id = ''a.png?v=1'', sublevels = []\<rparr> \<and>
   res (serve \<lparr>NODE_ENV = None, mime = (\<lambda>_. ''application/octet-stream''), loose_eq = (\<lambda>_ _. False)\<rparr>
          \<lparr>st_exists = (\<lambda>_ _. Inr True), st_stat = (\<lambda>_ _. []), st_read = (\<lambda>_ _. [''png''])\<rparr>
          (Server_new Root) \<lparr>req_url = ''/files/a.png?v=1'', req_headers = None\<rparr> None fresh_world) =
     \<lparr>statusCode = 200, headers = [''Content-Type'' \<mapsto> ''application/octet-stream''],
      body = [''png''], finished = True\<rparr>"
  using parseURL_keeps_query_string [of "''a.png''" "''v=1''"
      "\<lparr>st_exists = (\<lambda>_ _. Inr True), st_stat = (\<lambda>_ _. []), st_read = (\<lambda>_ _. [''png''])\<rparr>"
      "Server_new Root"
      "\<lparr>NODE_ENV = None, mime = (\<lambda>_. ''application/octet-stream''), loose_eq = (\<lambda>_ _. False)\<rparr>"
      None]
  by simp


end
